theory Spec2Isabelle
  imports Main "HOL-Library.Sublist"
begin

section \<open>Python strings\<close>

text \<open>
  A Python \<^verbatim>\<open>str\<close> is modelled as a \<^typ>\<open>string\<close>; a \<^typ>\<open>char\<close> stands for a code point
  below 256. \<^verbatim>\<open>str.isspace\<close> on those code points: TAB..CR, FS..US, SPACE, NEL and NBSP.
\<close>

definition isspace :: "char \<Rightarrow> bool" where
  "isspace c =
     (let n = (of_char c :: nat)
      in (9 \<le> n \<and> n \<le> 13) \<or> (28 \<le> n \<and> n \<le> 32) \<or> n = 133 \<or> n = 160)"

text \<open>\<^verbatim>\<open>s.strip()\<close>: whitespace removed at both ends.\<close>

definition strip :: "string \<Rightarrow> string" where
  "strip s = rev (dropWhile isspace (rev (dropWhile isspace s)))"

text \<open>
  \<^verbatim>\<open>s.find(sub)\<close>: the lowest index at which \<^verbatim>\<open>sub\<close> occurs in \<^verbatim>\<open>s\<close>, and \<open>-1\<close> when it
  does not occur. \<open>find_from sub s i\<close> scans \<open>s\<close>, the text from index \<open>i\<close> on.
\<close>

fun find_from :: "string \<Rightarrow> string \<Rightarrow> int \<Rightarrow> int" where
  "find_from sub [] i = (if sub = [] then i else - 1)"
| "find_from sub (c # cs) i = (if prefix sub (c # cs) then i else find_from sub cs (i + 1))"

definition str_find :: "string \<Rightarrow> string \<Rightarrow> int" where
  "str_find s sub = find_from sub s 0"

text \<open>
  \<^verbatim>\<open>s.split(maxsplit=n)\<close> with no separator: runs of whitespace separate the words, leading
  whitespace is skipped, and once \<open>n\<close> words are cut the rest of the text, after its leading
  whitespace, is one last element, taken as it is up to the end of the text.
\<close>

fun split_maxsplit :: "nat \<Rightarrow> string \<Rightarrow> string list" where
  "split_maxsplit 0 s =
     (let r = dropWhile isspace s in if r = [] then [] else [r])"
| "split_maxsplit (Suc n) s =
     (let r = dropWhile isspace s
      in if r = [] then []
         else takeWhile (\<lambda>c. \<not> isspace c) r
              # split_maxsplit n (dropWhile (\<lambda>c. \<not> isspace c) r))"

section \<open>Comment command parser (worker/jobs.py)\<close>

text \<open>The exceptions the modelled code raises, catches or lets through.\<close>

datatype exn =
    ValueError
  | GitlabCreateError (response_code: int)
  | GithubException
  | OtherException string

definition REQUESTED_PULL_REQUEST_COMMENT :: string where
  "REQUESTED_PULL_REQUEST_COMMENT = ''/packit''"

text \<open>
  \<^verbatim>\<open>get_packit_commands_from_comment\<close>. The starred unpacking
  \<^verbatim>\<open>(packit_mark, *packit_command) = ...\<close> raises ValueError on an empty list; that
  branch is part of the model.
\<close>

definition get_packit_commands_from_comment :: "string \<Rightarrow> exn + string list" where
  "get_packit_commands_from_comment comment =
     (let comment_parts = strip comment
      in if comment_parts = [] then Inr []
         else
           let cmd_start_index = str_find comment REQUESTED_PULL_REQUEST_COMMENT
           in if cmd_start_index = - 1 then Inr []
              else
                (case split_maxsplit 3 (drop (nat cmd_start_index) comment) of
                   [] \<Rightarrow> Inl ValueError
                 | packit_mark # packit_command \<Rightarrow>
                     if packit_mark \<noteq> REQUESTED_PULL_REQUEST_COMMENT then Inr []
                     else if packit_command = [] then Inr []
                     else Inr packit_command))"

section \<open>Data model of the dispatcher\<close>

type_synonym JobType = string
type_synonym JobConfigTriggerType = string

text \<open>A handler class is identified by its class name.\<close>

type_synonym handler = string

text \<open>
  \<^verbatim>\<open>packit.config.JobConfig\<close>: the job type, the trigger and the rest of the job's
  description, opaque here. Python's \<^verbatim>\<open>==\<close> on job configurations (used by
  \<^verbatim>\<open>job not in jobs_matching_trigger\<close>) is equality of the record.
\<close>

record JobConfig =
  job_type :: JobType
  trigger :: JobConfigTriggerType
  metadata :: string

record PackageConfig =
  jobs :: "JobConfig list"

text \<open>
  The concrete class of an event. The classes that \<^verbatim>\<open>jobs.py\<close> names are constructors of
  their own; every other event class is \<open>OtherEvent\<close> with its class name.
  \<^verbatim>\<open>isinstance\<close> is equality of the class: the event classes are taken as a flat,
  closed family.
\<close>

datatype event_class =
    PullRequestCommentGithubEvent
  | PullRequestCommentPagureEvent
  | IssueCommentEvent
  | MergeRequestCommentGitlabEvent
  | IssueCommentGitlabEvent
  | InstallationEvent
  | PullRequestLabelPagureEvent
  | OtherEvent string

record service =
  hostname :: string

record GitProject =
  is_private :: bool
  project_service :: service
  namespace :: string

text \<open>
  What the dispatcher reads of an \<^verbatim>\<open>Event\<close>: its class,
  \<^verbatim>\<open>event.db_trigger.job_config_trigger_type\<close>, \<^verbatim>\<open>event.comment\<close> (read for the comment
  classes only), \<^verbatim>\<open>event.package_config\<close>, \<^verbatim>\<open>event.project\<close> and the value of
  \<^verbatim>\<open>event.pre_check()\<close>.
\<close>

record Event =
  event_class :: event_class
  job_config_trigger_type :: JobConfigTriggerType
  comment :: string
  package_config :: "PackageConfig option"
  project :: "GitProject option"
  pre_check :: bool

text \<open>
  The handler registry of \<^verbatim>\<open>worker/handlers/abstract.py\<close>, whose tables are taken as
  parameters. Every table is read by subscript with any key and the result is tested for
  emptiness (\<^verbatim>\<open>if not handlers\<close>), so a table is a total function into sets of handlers:
  a key with no entry gives the empty set.
\<close>

record registry =
  MAP_JOB_TYPE_TO_HANDLER :: "JobType \<Rightarrow> handler set"
  MAP_REQUIRED_JOB_TYPE_TO_HANDLER :: "JobType \<Rightarrow> handler set"
  SUPPORTED_EVENTS_FOR_HANDLER :: "handler \<Rightarrow> event_class set"
  MAP_COMMENT_TO_HANDLER :: "string \<Rightarrow> handler set"

text \<open>\<^verbatim>\<open>TaskResults.create_from(success, msg, job_config, event)\<close>.\<close>

record TaskResults =
  success :: bool
  msg :: string
  job_config :: "JobConfig option"
  event :: Event

definition create_from :: "bool \<Rightarrow> string \<Rightarrow> JobConfig option \<Rightarrow> Event \<Rightarrow> TaskResults" where
  "create_from s m jc ev = \<lparr>success = s, msg = m, job_config = jc, event = ev\<rparr>"

text \<open>
  \<^verbatim>\<open>handler_kls.get_signature(event=event, job=job_config)\<close> and what reaches the execution
  backend: \<^verbatim>\<open>group(signatures).apply_async()\<close> or \<^verbatim>\<open>signature.apply_async()\<close>. The backend
  is the list of submissions so far, oldest first.
\<close>

record signature =
  sig_handler :: handler
  sig_event :: Event
  sig_job :: "JobConfig option"

definition get_signature :: "handler \<Rightarrow> Event \<Rightarrow> JobConfig option \<Rightarrow> signature" where
  "get_signature h ev jc = \<lparr>sig_handler = h, sig_event = ev, sig_job = jc\<rparr>"

datatype submission = Group "signature list" | Single signature

type_synonym backend = "submission list"

section \<open>Job matcher (worker/jobs.py)\<close>

text \<open>The first loop of \<^verbatim>\<open>get_handlers_for_event\<close>; \<open>acc\<close> is \<^verbatim>\<open>jobs_matching_trigger\<close>.\<close>

fun jobs_matching_trigger_unique ::
  "JobConfigTriggerType \<Rightarrow> JobConfig list \<Rightarrow> JobConfig list \<Rightarrow> JobConfig list" where
  "jobs_matching_trigger_unique t [] acc = acc"
| "jobs_matching_trigger_unique t (job # rest) acc =
     (if trigger job = t \<and> job \<notin> set acc
      then jobs_matching_trigger_unique t rest (acc @ [job])
      else jobs_matching_trigger_unique t rest acc)"

definition is_comment_event :: "Event \<Rightarrow> bool" where
  "is_comment_event ev =
     (event_class ev \<in> {PullRequestCommentGithubEvent, PullRequestCommentPagureEvent,
        IssueCommentEvent, MergeRequestCommentGitlabEvent, IssueCommentGitlabEvent})"

definition get_handlers_for_comment :: "registry \<Rightarrow> string \<Rightarrow> exn + handler set" where
  "get_handlers_for_comment reg c =
     (case get_packit_commands_from_comment c of
        Inl e \<Rightarrow> Inl e
      | Inr commands \<Rightarrow>
          (case commands of
             [] \<Rightarrow> Inr {}
           | command # _ \<Rightarrow> Inr (MAP_COMMENT_TO_HANDLER reg command)))"

text \<open>
  The second loop of \<^verbatim>\<open>get_handlers_for_event\<close>; \<open>restriction\<close> is
  \<^verbatim>\<open>handlers_triggered_by_comment\<close> (\<open>None\<close> for Python's \<^verbatim>\<open>None\<close>) and \<open>acc\<close> is
  \<^verbatim>\<open>matching_handlers\<close>. The inner loop runs over a set and adds to a set.
\<close>

fun matching_handlers_loop ::
  "registry \<Rightarrow> Event \<Rightarrow> handler set option \<Rightarrow> JobConfig list \<Rightarrow> handler set \<Rightarrow> handler set" where
  "matching_handlers_loop reg ev restriction [] acc = acc"
| "matching_handlers_loop reg ev restriction (job # rest) acc =
     matching_handlers_loop reg ev restriction rest
       (acc \<union> Set.filter
          (\<lambda>h. event_class ev \<in> SUPPORTED_EVENTS_FOR_HANDLER reg h
               \<and> (case restriction of None \<Rightarrow> True | Some hs \<Rightarrow> h \<in> hs))
          (MAP_JOB_TYPE_TO_HANDLER reg (job_type job)
             \<union> MAP_REQUIRED_JOB_TYPE_TO_HANDLER reg (job_type job)))"

definition get_handlers_for_event :: "registry \<Rightarrow> Event \<Rightarrow> PackageConfig \<Rightarrow> exn + handler set" where
  "get_handlers_for_event reg ev pc =
     (let jobs_matching_trigger =
            jobs_matching_trigger_unique (job_config_trigger_type ev) (jobs pc) []
      in if is_comment_event ev
         then (case get_handlers_for_comment reg (comment ev) of
                 Inl e \<Rightarrow> Inl e
               | Inr handlers_triggered_by_comment \<Rightarrow>
                   Inr (matching_handlers_loop reg ev (Some handlers_triggered_by_comment)
                          jobs_matching_trigger {}))
         else Inr (matching_handlers_loop reg ev None jobs_matching_trigger {}))"

section \<open>Config resolver (worker/jobs.py)\<close>

text \<open>
  \<^verbatim>\<open>get_config_for_handler_kls\<close>: each of its three loops appends, in order, the elements of a
  list that pass a test.
\<close>

definition get_config_for_handler_kls ::
  "registry \<Rightarrow> handler \<Rightarrow> Event \<Rightarrow> PackageConfig \<Rightarrow> JobConfig list" where
  "get_config_for_handler_kls reg handler_kls ev pc =
     (let jobs_matching_trigger =
            filter (\<lambda>job. trigger job = job_config_trigger_type ev) (jobs pc);
          matching_jobs =
            filter (\<lambda>job. handler_kls \<in> MAP_JOB_TYPE_TO_HANDLER reg (job_type job))
              jobs_matching_trigger
      in if matching_jobs = []
         then filter (\<lambda>job. handler_kls \<in> MAP_REQUIRED_JOB_TYPE_TO_HANDLER reg (job_type job))
                jobs_matching_trigger
         else matching_jobs)"

section \<open>Dispatcher (worker/jobs.py, class SteveJobs)\<close>

text \<open>
  \<^verbatim>\<open>Allowlist.check_and_report(event, event.project, service_config, job_configs)\<close> is an
  external collaborator: a parameter, a function of the event and the job configurations
  (the project is the event's and the service configuration is fixed).
\<close>

type_synonym allowlist = "Event \<Rightarrow> JobConfig list \<Rightarrow> bool"

text \<open>
  The \<^verbatim>\<open>for handler_kls in handler_classes\<close> loop of \<^verbatim>\<open>process_jobs\<close> over the handlers
  still to visit, with the statements after the loop when none is left. \<open>job_configs\<close> is
  the variable of that name: assigned in every round, read after the loop.
\<close>

fun process_jobs_loop ::
  "registry \<Rightarrow> allowlist \<Rightarrow> Event \<Rightarrow> PackageConfig \<Rightarrow> handler list \<Rightarrow> JobConfig list \<Rightarrow> backend
     \<Rightarrow> TaskResults list \<times> backend" where
  "process_jobs_loop reg allow ev pc [] job_configs b =
     (map (\<lambda>jc. create_from True ''Job created.'' (Some jc) ev) job_configs, b)"
| "process_jobs_loop reg allow ev pc (handler_kls # rest) job_configs b =
     (let job_configs' = get_config_for_handler_kls reg handler_kls ev pc
      in if \<not> allow ev job_configs'
         then (map (\<lambda>jc. create_from False ''Account is not allowlisted!'' (Some jc) ev)
                 job_configs', b)
         else process_jobs_loop reg allow ev pc rest job_configs'
                (b @ [Group (map (\<lambda>jc. get_signature handler_kls ev (Some jc)) job_configs')]))"

text \<open>
  \<^verbatim>\<open>process_jobs\<close>. \<open>iteration\<close> gives the order in which Python iterates over the set of
  handler classes, which the language does not fix.
\<close>

definition process_jobs ::
  "registry \<Rightarrow> allowlist \<Rightarrow> (handler set \<Rightarrow> handler list) \<Rightarrow> Event \<Rightarrow> backend
     \<Rightarrow> exn + TaskResults list \<times> backend" where
  "process_jobs reg allow iteration ev b =
     (case package_config ev of
        None \<Rightarrow>
          Inr ([create_from True ''No packit config found in the repository.'' None ev], b)
      | Some pc \<Rightarrow>
          (case get_handlers_for_event reg ev pc of
             Inl e \<Rightarrow> Inl e
           | Inr handler_classes \<Rightarrow>
               if handler_classes = {} then Inr ([], b)
               else Inr (process_jobs_loop reg allow ev pc (iteration handler_classes) [] b)))"

text \<open>
  What \<^verbatim>\<open>process_message\<close> is given from outside: the registry, the allow-list, the set
  iteration order, the \<^verbatim>\<open>topic\<close> attribute of every handler class (\<open>None\<close> when a class has
  none), the two parsers (\<open>None\<close> for Python's \<^verbatim>\<open>None\<close>) and
  \<^verbatim>\<open>service_config.enabled_private_namespaces\<close>.
\<close>

record 'raw environment =
  env_registry :: registry
  env_allowlist :: allowlist
  env_iteration :: "handler set \<Rightarrow> handler list"
  handler_topics :: "string option list"
  centos_parse_event :: "'raw \<Rightarrow> Event option"
  parse_event :: "'raw \<Rightarrow> Event option"
  enabled_private_namespaces :: "string set"

definition private_and_not_enabled :: "'raw environment \<Rightarrow> Event \<Rightarrow> bool" where
  "private_and_not_enabled env event_object =
     (case project event_object of
        None \<Rightarrow> False
      | Some p \<Rightarrow>
          is_private p
          \<and> hostname (project_service p) @ ''/'' @ namespace p \<notin> enabled_private_namespaces env)"

text \<open>
  \<^verbatim>\<open>process_message\<close>. \<open>processing_results\<close> is the variable of that name, \<open>None\<close> until
  \<^verbatim>\<open>process_jobs\<close> assigns it.
\<close>

definition process_message ::
  "'raw environment \<Rightarrow> 'raw \<Rightarrow> string option \<Rightarrow> string option \<Rightarrow> backend
     \<Rightarrow> exn + TaskResults list \<times> backend" where
  "process_message env raw topic source b =
     (if (case topic of None \<Rightarrow> False | Some t \<Rightarrow> t \<noteq> [] \<and> Some t \<notin> set (handler_topics env))
      then Inr ([], b)
      else
        (case (if source = Some ''centosmsg'' then centos_parse_event env raw
               else parse_event env raw) of
           None \<Rightarrow> Inr ([], b)
         | Some event_object \<Rightarrow>
             if \<not> pre_check event_object then Inr ([], b)
             else if private_and_not_enabled env event_object then Inr ([], b)
             else
               (case (if event_class event_object = InstallationEvent
                      then Inr (None,
                             b @ [Single (get_signature ''GithubAppInstallationHandler''
                                            event_object None)])
                      else if event_class event_object = PullRequestLabelPagureEvent
                      then Inr (None,
                             b @ [Single (get_signature ''PagurePullRequestLabelHandler''
                                            event_object None)])
                      else (case process_jobs (env_registry env) (env_allowlist env)
                                   (env_iteration env) event_object b of
                              Inl e \<Rightarrow> Inl e
                            | Inr (results, b') \<Rightarrow> Inr (Some results, b'))) of
                  Inl e \<Rightarrow> Inl e
                | Inr (processing_results, b') \<Rightarrow>
                    (case processing_results of
                       None \<Rightarrow> Inr ([create_from True ''Job created.'' None event_object], b')
                     | Some results \<Rightarrow> Inr (results, b')))))"

section \<open>Status reporter (worker/reporting.py)\<close>

text \<open>
  \<^verbatim>\<open>ogr.abstract.CommitStatus\<close>: the reporter reads the member's \<^verbatim>\<open>name\<close> and passes the member
  on.
\<close>

datatype CommitStatus = CommitStatus (name: string)

text \<open>The class of \<^verbatim>\<open>self.project\<close>, as far as \<^verbatim>\<open>isinstance\<close> asks for it.\<close>

datatype project_class = GitlabProject | PagureProject | OtherGitProject

text \<open>
  The pull request that \<^verbatim>\<open>project.get_pr\<close> returns: whether it has a \<^verbatim>\<open>set_flag\<close> attribute,
  and its \<^verbatim>\<open>head_commit\<close>.
\<close>

record PullRequest =
  has_set_flag :: bool
  head_commit :: string

text \<open>
  The project a commit status is set on: \<^verbatim>\<open>self.project\<close>, or the \<^verbatim>\<open>source_project\<close> of the
  pull request with the given id.
\<close>

datatype project_ref = OwnProject | SourceProjectOfPr int

text \<open>The calls that reach the forge, with their arguments in the order of the source.\<close>

datatype forge_call =
    GetPr int
  | SetCommitStatus project_ref string CommitStatus string string string
  | CommitComment string string
  | SetFlag string string string CommitStatus string

text \<open>
  How the forge answers during one \<^verbatim>\<open>set_status\<close>: each call returns (\<open>None\<close>, or \<open>Inr\<close> with
  the value) or raises. \<^verbatim>\<open>hashlib.md5(...).hexdigest()\<close> is a parameter as well.
\<close>

record forge =
  get_pr_outcome :: "exn + PullRequest"
  set_commit_status_outcome :: "exn option"
  commit_comment_outcome :: "exn option"
  set_flag_outcome :: "exn option"
  md5_hexdigest :: "string \<Rightarrow> string"

record StatusReporter =
  project_class :: project_class
  commit_sha :: string
  pr_id :: "int option"
  cached_project_with_commit :: "project_ref option"

text \<open>The reporter object and the calls made so far, oldest first.\<close>

record state =
  reporter :: StatusReporter
  calls :: "forge_call list"

definition called :: "forge_call \<Rightarrow> state \<Rightarrow> state" where
  "called c s = s\<lparr>calls := calls s @ [c]\<rparr>"

text \<open>The property \<^verbatim>\<open>project_with_commit\<close>, with \<^verbatim>\<open>self._project_with_commit\<close> as its cache.\<close>

definition project_with_commit :: "forge \<Rightarrow> state \<Rightarrow> (exn + project_ref) \<times> state" where
  "project_with_commit f s =
     (case cached_project_with_commit (reporter s) of
        Some p \<Rightarrow> (Inr p, s)
      | None \<Rightarrow>
          (case pr_id (reporter s) of
             Some n \<Rightarrow>
               if project_class (reporter s) = GitlabProject
               then (case get_pr_outcome f of
                       Inl e \<Rightarrow> (Inl e, called (GetPr n) s)
                     | Inr pr \<Rightarrow>
                         (Inr (SourceProjectOfPr n),
                          (called (GetPr n) s)
                            \<lparr>reporter := (reporter s)
                               \<lparr>cached_project_with_commit := Some (SourceProjectOfPr n)\<rparr>\<rparr>))
               else (Inr OwnProject,
                     s\<lparr>reporter := (reporter s)\<lparr>cached_project_with_commit := Some OwnProject\<rparr>\<rparr>)
           | None \<Rightarrow>
               (Inr OwnProject,
                s\<lparr>reporter := (reporter s)\<lparr>cached_project_with_commit := Some OwnProject\<rparr>\<rparr>)))"

text \<open>\<^verbatim>\<open>sep.join(parts)\<close>.\<close>

fun join :: "string \<Rightarrow> string list \<Rightarrow> string" where
  "join sep [] = []"
| "join sep [x] = x"
| "join sep (x # y # ys) = x @ sep @ join sep (y # ys)"

definition newline :: string where
  "newline = [CHR 0x0A]"

text \<open>\<^verbatim>\<open>__add_commit_comment_with_status\<close>: the exception it raises, if any, and the new state.\<close>

definition add_commit_comment_with_status ::
  "forge \<Rightarrow> CommitStatus \<Rightarrow> string \<Rightarrow> string \<Rightarrow> string \<Rightarrow> state \<Rightarrow> exn option \<times> state" where
  "add_commit_comment_with_status f st description check_name url s =
     (let body =
            join newline
              [''- name: '' @ check_name,
               ''- state: '' @ name st,
               ''- url: '' @ (if url \<noteq> [] then url else ''not provided'')]
            @ newline @ newline @ description
      in (commit_comment_outcome f, called (CommitComment (commit_sha (reporter s)) body) s))"

text \<open>\<^verbatim>\<open>__set_pull_request_status\<close>.\<close>

definition set_pull_request_status ::
  "forge \<Rightarrow> string \<Rightarrow> string \<Rightarrow> string \<Rightarrow> CommitStatus \<Rightarrow> state \<Rightarrow> exn option \<times> state" where
  "set_pull_request_status f check_name description url st s =
     (case pr_id (reporter s) of
        None \<Rightarrow> (None, s)
      | Some n \<Rightarrow>
          (case get_pr_outcome f of
             Inl e \<Rightarrow> (Some e, called (GetPr n) s)
           | Inr pr \<Rightarrow>
               if has_set_flag pr \<and> head_commit pr = commit_sha (reporter s)
               then (set_flag_outcome f,
                     called (SetFlag check_name description url st (md5_hexdigest f check_name))
                       (called (GetPr n) s))
               else (None, called (GetPr n) s)))"

text \<open>The body of the \<^verbatim>\<open>try\<close> in \<^verbatim>\<open>set_status\<close>: the exception it raises, if any.\<close>

definition try_set_commit_status ::
  "forge \<Rightarrow> CommitStatus \<Rightarrow> string \<Rightarrow> string \<Rightarrow> string \<Rightarrow> state \<Rightarrow> exn option \<times> state" where
  "try_set_commit_status f st url description check_name s =
     (case project_with_commit f s of
        (Inl e, s') \<Rightarrow> (Some e, s')
      | (Inr p, s') \<Rightarrow>
          (set_commit_status_outcome f,
           called (SetCommitStatus p (commit_sha (reporter s')) st url description check_name) s'))"

text \<open>
  The \<^verbatim>\<open>except\<close> clauses of \<^verbatim>\<open>set_status\<close> for an exception \<open>e\<close> raised in the \<^verbatim>\<open>try\<close>: the
  exception that leaves the statement, if any. An exception raised by the fallback comment
  leaves it at once.
\<close>

definition except_clauses ::
  "forge \<Rightarrow> exn \<Rightarrow> CommitStatus \<Rightarrow> string \<Rightarrow> string \<Rightarrow> string \<Rightarrow> state \<Rightarrow> exn option \<times> state" where
  "except_clauses f e st description check_name url s =
     (case e of
        GitlabCreateError code \<Rightarrow>
          (case (if code \<noteq> 400 then add_commit_comment_with_status f st description check_name url s
                 else (None, s)) of
             (Some e', s') \<Rightarrow> (Some e', s')
           | (None, s') \<Rightarrow>
               if code \<notin> {400, 403, 404} then (Some (GitlabCreateError code), s')
               else (None, s'))
      | GithubException \<Rightarrow> add_commit_comment_with_status f st description check_name url s
      | _ \<Rightarrow> (Some e, s))"

text \<open>
  The \<^verbatim>\<open>try\<close> statement of \<^verbatim>\<open>set_status\<close> as a whole: its body, and the \<^verbatim>\<open>except\<close> clauses
  when the body raises.
\<close>

definition try_statement ::
  "forge \<Rightarrow> CommitStatus \<Rightarrow> string \<Rightarrow> string \<Rightarrow> string \<Rightarrow> state \<Rightarrow> exn option \<times> state" where
  "try_statement f st description check_name url s =
     (case try_set_commit_status f st url description check_name s of
        (None, s1) \<Rightarrow> (None, s1)
      | (Some e, s1) \<Rightarrow> except_clauses f e st description check_name url s1)"

text \<open>
  The \<^verbatim>\<open>url\<close> that \<^verbatim>\<open>set_status\<close> works with after its first statement (the Pagure API
  does not accept an empty one).
\<close>

definition effective_url :: "StatusReporter \<Rightarrow> string \<Rightarrow> string" where
  "effective_url r url =
     (if url = [] \<and> project_class r = PagureProject
      then ''https://wiki.centos.org/Manuals/ReleaseNotes/CentOSStream'' else url)"

text \<open>\<^verbatim>\<open>set_status\<close>: the exception it raises (\<open>None\<close> when it returns) and the new state.\<close>

definition set_status ::
  "forge \<Rightarrow> CommitStatus \<Rightarrow> string \<Rightarrow> string \<Rightarrow> string \<Rightarrow> state \<Rightarrow> exn option \<times> state" where
  "set_status f st description check_name url0 s =
     (let url = effective_url (reporter s) url0
      in case try_statement f st description check_name url s of
           (Some e, s2) \<Rightarrow> (Some e, s2)
         | (None, s2) \<Rightarrow> set_pull_request_status f check_name description url st s2)"

section \<open>Vocabulary of the properties\<close>

text \<open>A run of whitespace, a word (no whitespace in it), and the first occurrence of a text.\<close>

definition whitespace_run :: "string \<Rightarrow> bool" where
  "whitespace_run w = (w \<noteq> [] \<and> list_all isspace w)"

definition word :: "string \<Rightarrow> bool" where
  "word t = (t \<noteq> [] \<and> list_all (\<lambda>c. \<not> isspace c) t)"

definition first_occurrence_at :: "string \<Rightarrow> string \<Rightarrow> nat \<Rightarrow> bool" where
  "first_occurrence_at sub s i =
     (prefix sub (drop i s) \<and> list_all (\<lambda>j. \<not> prefix sub (drop j s)) [0..<i])"

text \<open>What a trace of forge calls shows: a commit comment was posted, a flag was written.\<close>

fun is_commit_comment :: "forge_call \<Rightarrow> bool" where
  "is_commit_comment (CommitComment _ _) = True"
| "is_commit_comment _ = False"

fun is_set_flag :: "forge_call \<Rightarrow> bool" where
  "is_set_flag (SetFlag _ _ _ _ _) = True"
| "is_set_flag _ = False"

definition comment_posted :: "state \<Rightarrow> bool" where
  "comment_posted s = list_ex is_commit_comment (calls s)"

definition flag_written :: "state \<Rightarrow> bool" where
  "flag_written s = list_ex is_set_flag (calls s)"

text \<open>
  The text of the fallback commit comment: the check's name, the state's name, the url
  (or the words "not provided") and the description.
\<close>

definition fallback_body :: "string \<Rightarrow> CommitStatus \<Rightarrow> string \<Rightarrow> string \<Rightarrow> string" where
  "fallback_body check_name st url description =
     ''- name: '' @ check_name @ newline @ ''- state: '' @ name st @ newline
     @ ''- url: '' @ (if url = [] then ''not provided'' else url) @ newline @ newline
     @ description"

text \<open>
  A message that \<^verbatim>\<open>process_message\<close> does not drop before it looks at the class of the event:
  the topic, if one is given, is a topic of some handler; the parser chosen by \<open>source\<close>
  returns the event; \<^verbatim>\<open>pre_check\<close> holds; the project is not a private one outside the enabled
  namespaces.
\<close>

definition accepted_event ::
  "'raw environment \<Rightarrow> 'raw \<Rightarrow> string option \<Rightarrow> string option \<Rightarrow> Event \<Rightarrow> bool" where
  "accepted_event env raw topic source ev =
     ((case topic of None \<Rightarrow> True | Some t \<Rightarrow> t = [] \<or> Some t \<in> set (handler_topics env))
      \<and> (if source = Some ''centosmsg'' then centos_parse_event env raw
          else parse_event env raw) = Some ev
      \<and> pre_check ev
      \<and> \<not> private_and_not_enabled env ev)"

section \<open>Example inputs\<close>

text \<open>
  A small registry in the shape of the service's own: a build handler and a test handler,
  both reacting to pull-request events and to pull-request comments; a \<open>tests\<close> job requires
  the build handler as well.
\<close>

definition example_registry :: registry where
  "example_registry =
     \<lparr>MAP_JOB_TYPE_TO_HANDLER =
        (\<lambda>t. if t = ''copr_build'' then {''CoprBuildHandler''}
              else if t = ''tests'' then {''TestingFarmHandler''} else {}),
      MAP_REQUIRED_JOB_TYPE_TO_HANDLER =
        (\<lambda>t. if t = ''tests'' then {''CoprBuildHandler''} else {}),
      SUPPORTED_EVENTS_FOR_HANDLER =
        (\<lambda>h. if h = ''CoprBuildHandler'' \<or> h = ''TestingFarmHandler''
              then {OtherEvent ''PullRequestGithubEvent'', PullRequestCommentGithubEvent}
              else {}),
      MAP_COMMENT_TO_HANDLER =
        (\<lambda>c. if c = ''build'' then {''CoprBuildHandler''}
              else if c = ''test'' then {''TestingFarmHandler''} else {})\<rparr>"

definition build_job :: JobConfig where
  "build_job = \<lparr>job_type = ''copr_build'', trigger = ''pull_request'', metadata = ''fedora''\<rparr>"

definition tests_job :: JobConfig where
  "tests_job = \<lparr>job_type = ''tests'', trigger = ''pull_request'', metadata = ''fedora''\<rparr>"

definition example_config :: PackageConfig where
  "example_config = \<lparr>jobs = [build_job, tests_job]\<rparr>"

definition pull_request_event :: Event where
  "pull_request_event =
     \<lparr>event_class = OtherEvent ''PullRequestGithubEvent'',
      job_config_trigger_type = ''pull_request'', comment = [],
      package_config = Some example_config, project = None, pre_check = True\<rparr>"

definition release_event :: Event where
  "release_event =
     \<lparr>event_class = OtherEvent ''ReleaseEvent'',
      job_config_trigger_type = ''release'', comment = [],
      package_config = Some example_config, project = None, pre_check = True\<rparr>"

definition installation_event :: Event where
  "installation_event =
     \<lparr>event_class = InstallationEvent,
      job_config_trigger_type = ''release'', comment = [],
      package_config = None, project = None, pre_check = True\<rparr>"

text \<open>
  A pull-request event whose package configuration declares the \<open>tests\<close> job only: the test
  handler resolves it directly and the build handler resolves it as a required job.
\<close>

definition tests_only_config :: PackageConfig where
  "tests_only_config = \<lparr>jobs = [tests_job]\<rparr>"

definition tests_only_event :: Event where
  "tests_only_event = pull_request_event\<lparr>package_config := Some tests_only_config\<rparr>"

definition comment_event :: "string \<Rightarrow> Event" where
  "comment_event c =
     \<lparr>event_class = PullRequestCommentGithubEvent,
      job_config_trigger_type = ''pull_request'', comment = c,
      package_config = Some example_config, project = None, pre_check = True\<rparr>"

definition example_iteration :: "handler set \<Rightarrow> handler list" where
  "example_iteration hs = filter (\<lambda>h. h \<in> hs) [''CoprBuildHandler'', ''TestingFarmHandler'']"

text \<open>An environment whose parser returns the event it is given as the payload.\<close>

definition example_environment :: "allowlist \<Rightarrow> Event environment" where
  "example_environment allow =
     \<lparr>env_registry = example_registry, env_allowlist = allow,
      env_iteration = example_iteration, handler_topics = [None],
      centos_parse_event = (\<lambda>raw. None), parse_event = (\<lambda>raw. Some raw),
      enabled_private_namespaces = {}\<rparr>"

text \<open>
  A GitLab merge request \<open>7\<close> whose head is the reported commit; the forge answers the
  status post with the given outcome and every other call normally.
\<close>

definition example_forge :: "exn option \<Rightarrow> forge" where
  "example_forge outcome =
     \<lparr>get_pr_outcome = Inr \<lparr>has_set_flag = True, head_commit = ''abc''\<rparr>,
      set_commit_status_outcome = outcome,
      commit_comment_outcome = None, set_flag_outcome = None,
      md5_hexdigest = (\<lambda>s. ''md5:'' @ s)\<rparr>"

definition example_state :: state where
  "example_state =
     \<lparr>reporter = \<lparr>project_class = GitlabProject, commit_sha = ''abc'', pr_id = Some 7,
                  cached_project_with_commit = None\<rparr>,
      calls = []\<rparr>"

section \<open>Properties of the string operations\<close>

lemma find_from_first:
  "list_all (\<lambda>j. \<not> prefix sub (drop j (pre @ sub @ rest))) [0..<length pre]
   \<Longrightarrow> find_from sub (pre @ sub @ rest) i = i + int (length pre)"
proof (induction pre arbitrary: i)
  case Nil
  have "prefix sub (sub @ rest)" by simp
  then show ?case by (cases "sub @ rest") auto
next
  case (Cons p ps)
  have all: "\<forall>j<Suc (length ps). \<not> prefix sub (drop j ((p # ps) @ sub @ rest))"
    using Cons.prems unfolding list_all_iff set_upt by auto
  from all have h0: "\<not> prefix sub (p # ps @ sub @ rest)"
    by (metis append_Cons drop0 zero_less_Suc)
  have "\<forall>j<length ps. \<not> prefix sub (drop j (ps @ sub @ rest))"
  proof (intro allI impI)
    fix j assume "j < length ps"
    then have "\<not> prefix sub (drop (Suc j) ((p # ps) @ sub @ rest))" using all by blast
    then show "\<not> prefix sub (drop j (ps @ sub @ rest))" by simp
  qed
  then have "find_from sub (ps @ sub @ rest) (i + 1) = i + 1 + int (length ps)"
    using Cons.IH unfolding list_all_iff set_upt by auto
  with h0 show ?case by simp
qed

lemma str_find_first:
  "first_occurrence_at sub (pre @ sub @ rest) (length pre)
   \<Longrightarrow> str_find (pre @ sub @ rest) sub = int (length pre)"
  unfolding first_occurrence_at_def str_find_def
  using find_from_first [of sub pre rest 0] by simp

lemma find_from_found:
  "find_from sub s i \<noteq> - 1 \<Longrightarrow> 0 \<le> i \<Longrightarrow>
     i \<le> find_from sub s i \<and> prefix sub (drop (nat (find_from sub s i - i)) s)"
proof (induction s arbitrary: i)
  case Nil
  then show ?case by (auto split: if_splits)
next
  case (Cons c cs)
  show ?case
  proof (cases "prefix sub (c # cs)")
    case True
    then show ?thesis by simp
  next
    case False
    then have eq: "find_from sub (c # cs) i = find_from sub cs (i + 1)" by simp
    with Cons.prems have "find_from sub cs (i + 1) \<noteq> - 1" by simp
    from Cons.IH [OF this] Cons.prems(2)
    have ih: "i + 1 \<le> find_from sub cs (i + 1)"
      "prefix sub (drop (nat (find_from sub cs (i + 1) - (i + 1))) cs)" by auto
    have "nat (find_from sub cs (i + 1) - i) = Suc (nat (find_from sub cs (i + 1) - (i + 1)))"
      using ih(1) by linarith
    then show ?thesis using ih eq by simp
  qed
qed

lemma strip_Nil_iff: "strip s = [] \<longleftrightarrow> (\<forall>c\<in>set s. isspace c)"
proof
  assume "strip s = []"
  then have a: "\<forall>c\<in>set (dropWhile isspace s). isspace c"
    by (simp add: strip_def dropWhile_eq_Nil_conv)
  have "dropWhile isspace s = []"
  proof (rule ccontr)
    assume ne: "dropWhile isspace s \<noteq> []"
    then have "\<not> isspace (hd (dropWhile isspace s))" by (rule hd_dropWhile)
    moreover have "hd (dropWhile isspace s) \<in> set (dropWhile isspace s)" using ne by simp
    ultimately show False using a by blast
  qed
  then show "\<forall>c\<in>set s. isspace c" by (simp add: dropWhile_eq_Nil_conv)
next
  assume "\<forall>c\<in>set s. isspace c"
  then have d: "dropWhile isspace s = []" by (simp add: dropWhile_eq_Nil_conv)
  show "strip s = []" unfolding strip_def d by simp
qed

lemma mark_word: "word REQUESTED_PULL_REQUEST_COMMENT"
  by (simp add: word_def REQUESTED_PULL_REQUEST_COMMENT_def isspace_def)

lemma split_word:
  assumes w: "word t"
  shows "split_maxsplit (Suc n) (t @ x) =
     (t @ takeWhile (\<lambda>c. \<not> isspace c) x) # split_maxsplit n (dropWhile (\<lambda>c. \<not> isspace c) x)"
proof -
  obtain c cs where t: "t = c # cs" and c: "\<not> isspace c"
    using w by (cases t) (auto simp: word_def)
  have all: "\<And>y. y \<in> set t \<Longrightarrow> \<not> isspace y" using w by (simp add: word_def list_all_iff)
  have d: "dropWhile isspace (t @ x) = t @ x" using t c by simp
  have tk: "takeWhile (\<lambda>c. \<not> isspace c) (t @ x) = t @ takeWhile (\<lambda>c. \<not> isspace c) x"
    using all by (simp add: takeWhile_append2)
  have dk: "dropWhile (\<lambda>c. \<not> isspace c) (t @ x) = dropWhile (\<lambda>c. \<not> isspace c) x"
    using all by (simp add: dropWhile_append2)
  have ne: "t @ x \<noteq> []" using t by simp
  show ?thesis by (simp only: split_maxsplit.simps Let_def d tk dk ne if_False)
qed

lemma split_word_ws:
  assumes "word t" "whitespace_run w"
  shows "split_maxsplit (Suc n) (t @ w @ x) = t # split_maxsplit n (w @ x)"
proof -
  obtain c cs where w: "w = c # cs" and c: "isspace c"
    using assms(2) by (cases w) (auto simp: whitespace_run_def)
  show ?thesis using split_word [OF assms(1), of n "w @ x"] w c by simp
qed

lemma split_skip_ws:
  assumes "whitespace_run w"
  shows "split_maxsplit n (w @ x) = split_maxsplit n x"
proof -
  have "dropWhile isspace (w @ x) = dropWhile isspace x"
    using assms by (simp add: whitespace_run_def list_all_iff dropWhile_append2)
  then show ?thesis by (cases n) simp_all
qed

lemma split_rest: "r \<noteq> [] \<Longrightarrow> \<not> isspace (hd r) \<Longrightarrow> split_maxsplit 0 r = [r]"
  by (cases r) simp_all

lemma split_maxsplit_nonempty:
  "s \<noteq> [] \<Longrightarrow> \<not> isspace (hd s) \<Longrightarrow> split_maxsplit n s \<noteq> []"
  by (cases s; cases n) simp_all

lemma split_three_args:
  assumes "whitespace_run w1" "word a" "whitespace_run w2" "word b" "whitespace_run w3"
    and "r \<noteq> []" "\<not> isspace (hd r)"
  shows "split_maxsplit 3 (REQUESTED_PULL_REQUEST_COMMENT @ w1 @ a @ w2 @ b @ w3 @ r)
         = [REQUESTED_PULL_REQUEST_COMMENT, a, b, r]"
proof -
  have "split_maxsplit (Suc (Suc (Suc 0)))
          (REQUESTED_PULL_REQUEST_COMMENT @ w1 @ a @ w2 @ b @ w3 @ r)
      = REQUESTED_PULL_REQUEST_COMMENT # split_maxsplit (Suc (Suc 0)) (a @ w2 @ b @ w3 @ r)"
    using split_word_ws [OF mark_word assms(1)] split_skip_ws [OF assms(1)]
    by (simp del: split_maxsplit.simps)
  also have "split_maxsplit (Suc (Suc 0)) (a @ w2 @ b @ w3 @ r)
      = a # split_maxsplit (Suc 0) (b @ w3 @ r)"
    using split_word_ws [OF assms(2,3)] split_skip_ws [OF assms(3)]
    by (simp del: split_maxsplit.simps)
  also have "split_maxsplit (Suc 0) (b @ w3 @ r) = b # split_maxsplit 0 r"
    using split_word_ws [OF assms(4,5)] split_skip_ws [OF assms(5)]
    by (simp del: split_maxsplit.simps)
  also have "split_maxsplit 0 r = [r]" using assms(6,7) by (rule split_rest)
  finally show ?thesis by (simp only: numeral_3_eq_3)
qed

section \<open>The comment command parser\<close>

lemma contains_mark_not_blank: "strip (pre @ REQUESTED_PULL_REQUEST_COMMENT @ rest) \<noteq> []"
proof -
  have "CHR ''/'' \<in> set (pre @ REQUESTED_PULL_REQUEST_COMMENT @ rest)"
    by (simp add: REQUESTED_PULL_REQUEST_COMMENT_def)
  moreover have "\<not> isspace CHR ''/''" by (simp add: isspace_def)
  ultimately show ?thesis unfolding strip_Nil_iff by blast
qed

text \<open>
  From the first occurrence of the marker on, the parser works on the text that starts at
  the marker; what stands before the marker plays no part.
\<close>

lemma parse_at_first_occurrence:
  assumes "first_occurrence_at REQUESTED_PULL_REQUEST_COMMENT
             (pre @ REQUESTED_PULL_REQUEST_COMMENT @ rest) (length pre)"
  shows "get_packit_commands_from_comment (pre @ REQUESTED_PULL_REQUEST_COMMENT @ rest) =
     (case split_maxsplit 3 (REQUESTED_PULL_REQUEST_COMMENT @ rest) of
        [] \<Rightarrow> Inl ValueError
      | packit_mark # packit_command \<Rightarrow>
          if packit_mark \<noteq> REQUESTED_PULL_REQUEST_COMMENT then Inr []
          else if packit_command = [] then Inr []
          else Inr packit_command)"
  using str_find_first [OF assms] contains_mark_not_blank [of pre rest]
  by (simp add: get_packit_commands_from_comment_def Let_def)

text \<open>The unpacking never fails: the parser returns a list for every comment.\<close>

lemma get_packit_commands_from_comment_returns:
  "\<exists>commands. get_packit_commands_from_comment c = Inr commands"
proof (cases "strip c = [] \<or> str_find c REQUESTED_PULL_REQUEST_COMMENT = - 1")
  case True
  then show ?thesis by (auto simp: get_packit_commands_from_comment_def Let_def)
next
  case False
  then have nb: "strip c \<noteq> []" and f: "str_find c REQUESTED_PULL_REQUEST_COMMENT \<noteq> - 1"
    by auto
  let ?s = "drop (nat (str_find c REQUESTED_PULL_REQUEST_COMMENT)) c"
  have "prefix REQUESTED_PULL_REQUEST_COMMENT ?s"
    using find_from_found [of REQUESTED_PULL_REQUEST_COMMENT c 0] f by (simp add: str_find_def)
  then obtain rest where "?s = REQUESTED_PULL_REQUEST_COMMENT @ rest" by (auto simp: prefix_def)
  then have "?s \<noteq> []" "\<not> isspace (hd ?s)"
    by (simp_all add: REQUESTED_PULL_REQUEST_COMMENT_def isspace_def)
  then have "split_maxsplit 3 ?s \<noteq> []" by (rule split_maxsplit_nonempty)
  then obtain m cmds where "split_maxsplit 3 ?s = m # cmds"
    by (cases "split_maxsplit 3 ?s") auto
  then show ?thesis using nb f by (simp add: get_packit_commands_from_comment_def Let_def)
qed

lemma three_arguments:
  assumes "first_occurrence_at REQUESTED_PULL_REQUEST_COMMENT
             (pre @ REQUESTED_PULL_REQUEST_COMMENT @ w1 @ a @ w2 @ b @ w3 @ r) (length pre)"
    and "whitespace_run w1" "word a" "whitespace_run w2" "word b" "whitespace_run w3"
    and "r \<noteq> []" "\<not> isspace (hd r)"
  shows "get_packit_commands_from_comment
           (pre @ REQUESTED_PULL_REQUEST_COMMENT @ w1 @ a @ w2 @ b @ w3 @ r) = Inr [a, b, r]"
  using parse_at_first_occurrence [OF assms(1)] split_three_args [OF assms(2-8)] by simp

text \<open>
  Claim C5, as stated, fails in its general part. The third argument runs to the end of
  the comment, not to the end of the line: for \<open>/packit a b c d\<close> followed by a line break
  and \<open>second line\<close> it holds both lines. And a comment may contain the standalone marker
  followed by four words and still give nothing, when an earlier occurrence of the marker
  is part of a longer word.
\<close>

theorem parser_remainder_of_line_counterexample:
  "get_packit_commands_from_comment (''/packit a b c d'' @ newline @ ''second line'')
     = Inr [''a'', ''b'', ''c d'' @ newline @ ''second line'']
   \<and> get_packit_commands_from_comment ''/packitx /packit a b c d'' = Inr []"
  by code_simp

text \<open>
  Claim C5, amended. The parser returns \<open>[build]\<close> for \<open>/packit build\<close>, nothing for
  \<open>random text\<close> and for \<open>/packitbuild\<close>, and \<open>[a, b, c d]\<close> for \<open>/packit a b c d\<close>. In
  general: when the first occurrence of the marker is followed by whitespace, a word \<open>a\<close>,
  whitespace, a word \<open>b\<close>, whitespace and a remainder \<open>r\<close> that starts with a character
  other than whitespace, the result is \<open>[a, b, r]\<close>: the third argument is the whole
  remainder of the comment as it stands, up to the end of the comment, with the whitespace
  and the line breaks inside it and at its end, however many words it holds.
\<close>

theorem parser_examples_and_remainder:
  "get_packit_commands_from_comment ''/packit build'' = Inr [''build'']
   \<and> get_packit_commands_from_comment ''random text'' = Inr []
   \<and> get_packit_commands_from_comment ''/packitbuild'' = Inr []
   \<and> get_packit_commands_from_comment ''/packit a b c d'' = Inr [''a'', ''b'', ''c d'']
   \<and> (\<forall>pre w1 a w2 b w3 r.
         first_occurrence_at REQUESTED_PULL_REQUEST_COMMENT
           (pre @ REQUESTED_PULL_REQUEST_COMMENT @ w1 @ a @ w2 @ b @ w3 @ r) (length pre)
         \<and> whitespace_run w1 \<and> word a \<and> whitespace_run w2 \<and> word b \<and> whitespace_run w3
         \<and> r \<noteq> [] \<and> \<not> isspace (hd r)
         \<longrightarrow> get_packit_commands_from_comment
               (pre @ REQUESTED_PULL_REQUEST_COMMENT @ w1 @ a @ w2 @ b @ w3 @ r)
             = Inr [a, b, r])"
proof (intro conjI allI impI)
  show "get_packit_commands_from_comment ''/packit build'' = Inr [''build'']"
    by code_simp
  show "get_packit_commands_from_comment ''random text'' = Inr []"
    by code_simp
  show "get_packit_commands_from_comment ''/packitbuild'' = Inr []"
    by code_simp
  show "get_packit_commands_from_comment ''/packit a b c d'' = Inr [''a'', ''b'', ''c d'']"
    by code_simp
next
  fix pre w1 a w2 b w3 r
  assume h: "first_occurrence_at REQUESTED_PULL_REQUEST_COMMENT
           (pre @ REQUESTED_PULL_REQUEST_COMMENT @ w1 @ a @ w2 @ b @ w3 @ r) (length pre)
         \<and> whitespace_run w1 \<and> word a \<and> whitespace_run w2 \<and> word b \<and> whitespace_run w3
         \<and> r \<noteq> [] \<and> \<not> isspace (hd r)"
  then show "get_packit_commands_from_comment
               (pre @ REQUESTED_PULL_REQUEST_COMMENT @ w1 @ a @ w2 @ b @ w3 @ r)
             = Inr [a, b, r]"
    by (intro three_arguments) simp_all
qed

theorem parser_examples_and_remainder_witness:
  "first_occurrence_at REQUESTED_PULL_REQUEST_COMMENT
     (''ok, '' @ REQUESTED_PULL_REQUEST_COMMENT @ '' '' @ ''a'' @ ''  '' @ ''b'' @ '' ''
        @ (''c  d'' @ newline @ ''e ''))
     (length ''ok, '')
   \<and> get_packit_commands_from_comment
       (''ok, '' @ REQUESTED_PULL_REQUEST_COMMENT @ '' '' @ ''a'' @ ''  '' @ ''b'' @ '' ''
          @ (''c  d'' @ newline @ ''e ''))
     = Inr [''a'', ''b'', ''c  d'' @ newline @ ''e '']"
proof -
  have f: "first_occurrence_at REQUESTED_PULL_REQUEST_COMMENT
     (''ok, '' @ REQUESTED_PULL_REQUEST_COMMENT @ '' '' @ ''a'' @ ''  '' @ ''b'' @ '' ''
        @ (''c  d'' @ newline @ ''e ''))
     (length ''ok, '')"
    by code_simp
  have w: "whitespace_run '' ''" "word ''a''" "whitespace_run ''  ''" "word ''b''"
    by code_simp+
  have r: "''c  d'' @ newline @ ''e '' \<noteq> []" "\<not> isspace (hd (''c  d'' @ newline @ ''e ''))"
    by (simp_all add: isspace_def)
  from parser_examples_and_remainder
  have "\<forall>pre w1 a w2 b w3 r.
         first_occurrence_at REQUESTED_PULL_REQUEST_COMMENT
           (pre @ REQUESTED_PULL_REQUEST_COMMENT @ w1 @ a @ w2 @ b @ w3 @ r) (length pre)
         \<and> whitespace_run w1 \<and> word a \<and> whitespace_run w2 \<and> word b \<and> whitespace_run w3
         \<and> r \<noteq> [] \<and> \<not> isspace (hd r)
         \<longrightarrow> get_packit_commands_from_comment
               (pre @ REQUESTED_PULL_REQUEST_COMMENT @ w1 @ a @ w2 @ b @ w3 @ r)
             = Inr [a, b, r]"
    by (elim conjE)
  from this [rule_format, of "''ok, ''" "'' ''" "''a''" "''  ''" "''b''" "'' ''"
      "''c  d'' @ newline @ ''e ''"] f w r
  show ?thesis by blast
qed

text \<open>
  Claim C6, as stated, fails: for a marker that ends a longer word, as in \<open>x/packit build\<close>,
  the whitespace-delimited token at the occurrence is \<open>x/packit\<close>, not the marker, and the
  parser still returns the command \<open>build\<close>.
\<close>

theorem parser_marker_after_prefix_counterexample:
  "get_packit_commands_from_comment ''x/packit build'' = Inr [''build'']"
  by code_simp

text \<open>
  Claim C6, amended. When the first occurrence of the marker is followed at once by a
  character other than whitespace, so that the word starting at the marker is longer than
  the marker, the parser returns the empty list, whatever follows (also a later, standalone
  marker). What stands before the marker in the same word is not looked at.
\<close>

theorem parser_marker_followed_by_text:
  assumes "first_occurrence_at REQUESTED_PULL_REQUEST_COMMENT
             (pre @ REQUESTED_PULL_REQUEST_COMMENT @ c # rest) (length pre)"
    and "\<not> isspace c"
  shows "get_packit_commands_from_comment (pre @ REQUESTED_PULL_REQUEST_COMMENT @ c # rest)
         = Inr []"
proof -
  have "split_maxsplit 3 (REQUESTED_PULL_REQUEST_COMMENT @ c # rest)
     = (REQUESTED_PULL_REQUEST_COMMENT @ c # takeWhile (\<lambda>c. \<not> isspace c) rest)
        # split_maxsplit 2 (dropWhile (\<lambda>c. \<not> isspace c) rest)"
    using split_word [OF mark_word, of 2 "c # rest"] assms(2)
    by (simp add: numeral_3_eq_3 numeral_2_eq_2)
  then show ?thesis using parse_at_first_occurrence [OF assms(1)] by simp
qed

theorem parser_marker_followed_by_text_witness:
  "get_packit_commands_from_comment
     (''see '' @ REQUESTED_PULL_REQUEST_COMMENT @ CHR ''b'' # ''uild, then /packit build'')
   = Inr []"
proof -
  have f: "first_occurrence_at REQUESTED_PULL_REQUEST_COMMENT
     (''see '' @ REQUESTED_PULL_REQUEST_COMMENT @ CHR ''b'' # ''uild, then /packit build'')
     (length ''see '')"
    by code_simp
  have c: "\<not> isspace CHR ''b''" by (simp add: isspace_def)
  show ?thesis by (rule parser_marker_followed_by_text [OF f c])
qed

section \<open>Job matcher and config resolver\<close>

lemma jobs_matching_trigger_unique_none:
  "\<forall>job\<in>set js. trigger job \<noteq> t \<Longrightarrow> jobs_matching_trigger_unique t js acc = acc"
  by (induction js arbitrary: acc) simp_all

lemma matching_handlers_loop_no_command:
  "matching_handlers_loop reg ev (Some {}) js acc = acc"
  by (induction js arbitrary: acc) simp_all

lemma get_handlers_for_comment_returns:
  "\<exists>hs. get_handlers_for_comment reg c = Inr hs"
  using get_packit_commands_from_comment_returns [of c]
  by (auto simp: get_handlers_for_comment_def split: list.splits)

lemma get_handlers_for_event_returns:
  "\<exists>hs. get_handlers_for_event reg ev pc = Inr hs"
  using get_handlers_for_comment_returns [of reg "comment ev"]
  by (auto simp: get_handlers_for_event_def Let_def)

text \<open>
  Claim C10. For an event of a comment class whose comment gives no recognised command
  (the parser returns the empty list, as it does for an absent, malformed or bare marker,
  or the first command word has no handler in \<^verbatim>\<open>MAP_COMMENT_TO_HANDLER\<close>),
  \<^verbatim>\<open>get_handlers_for_event\<close> returns the empty set, whatever jobs the package configuration
  declares and whatever events the handlers support.
\<close>

theorem get_handlers_for_event_comment_without_command:
  assumes "is_comment_event ev"
    and "get_packit_commands_from_comment (comment ev) = Inr commands"
    and "commands = [] \<or> MAP_COMMENT_TO_HANDLER reg (hd commands) = {}"
  shows "get_handlers_for_event reg ev pc = Inr {}"
proof -
  have "get_handlers_for_comment reg (comment ev) = Inr {}"
    using assms(2,3) by (cases commands) (auto simp: get_handlers_for_comment_def)
  then show ?thesis
    using assms(1)
    by (simp add: get_handlers_for_event_def Let_def matching_handlers_loop_no_command)
qed

theorem get_handlers_for_event_comment_without_command_witness:
  "is_comment_event (comment_event ''thanks, /packit frobnicate now'')
   \<and> get_packit_commands_from_comment (comment (comment_event ''thanks, /packit frobnicate now''))
       = Inr [''frobnicate'', ''now'']
   \<and> MAP_COMMENT_TO_HANDLER example_registry ''frobnicate'' = {}
   \<and> get_handlers_for_event example_registry (comment_event ''thanks, /packit frobnicate now'')
       example_config = Inr {}
   \<and> get_handlers_for_event example_registry
       (pull_request_event\<lparr>event_class := PullRequestCommentGithubEvent\<rparr>) example_config
       = Inr {}"
proof -
  let ?ev = "comment_event ''thanks, /packit frobnicate now''"
  let ?ev' = "pull_request_event\<lparr>event_class := PullRequestCommentGithubEvent\<rparr>"
  have a: "is_comment_event ?ev" by code_simp
  have b: "get_packit_commands_from_comment (comment ?ev) = Inr [''frobnicate'', ''now'']"
    by code_simp
  have c: "MAP_COMMENT_TO_HANDLER example_registry ''frobnicate'' = {}"
    by (simp add: example_registry_def)
  then have c': "[''frobnicate'', ''now''] = []
       \<or> MAP_COMMENT_TO_HANDLER example_registry (hd [''frobnicate'', ''now'']) = {}"
    by simp
  have a': "is_comment_event ?ev'" by code_simp
  have b': "get_packit_commands_from_comment (comment ?ev') = Inr []" by code_simp
  show ?thesis
    using a b c
      get_handlers_for_event_comment_without_command [OF a b c', of example_config]
      get_handlers_for_event_comment_without_command [OF a' b', of example_registry example_config]
    by simp
qed

text \<open>
  Claim C9. The resolver filters the jobs by trigger without removing duplicates, while
  the matcher's filter of the same name removes them: for a package configuration that
  declares the same job twice the resolver returns it twice.
\<close>

theorem get_config_for_handler_kls_keeps_duplicates:
  "get_config_for_handler_kls example_registry ''CoprBuildHandler'' pull_request_event
     \<lparr>jobs = [build_job, build_job]\<rparr> = [build_job, build_job]
   \<and> jobs_matching_trigger_unique (job_config_trigger_type pull_request_event)
       (jobs \<lparr>jobs = [build_job, build_job]\<rparr>) [] = [build_job]"
  by code_simp

section \<open>Dispatcher\<close>

lemma process_jobs_loop_all_allowed:
  "\<forall>h\<in>set hs. allow ev (get_config_for_handler_kls reg h ev pc) \<Longrightarrow>
   process_jobs_loop reg allow ev pc hs job_configs b =
     (map (\<lambda>jc. create_from True ''Job created.'' (Some jc) ev)
        (if hs = [] then job_configs else get_config_for_handler_kls reg (last hs) ev pc),
      b @ map (\<lambda>h. Group (map (\<lambda>jc. get_signature h ev (Some jc))
                              (get_config_for_handler_kls reg h ev pc))) hs)"
proof (induction hs arbitrary: job_configs b)
  case Nil
  then show ?case by simp
next
  case (Cons h hs)
  then show ?case by (simp add: Let_def)
qed

text \<open>
  Claim C1. The event has a package configuration and at least two handlers match; the
  loop visits \<open>first\<close> before the \<open>others\<close>. If the allow-list rejects the job
  configurations resolved for \<open>first\<close>, \<^verbatim>\<open>process_jobs\<close> returns one failed result
  (\<open>Account is not allowlisted!\<close>) for each of them, in order, and the backend is as it was:
  no group has been submitted, for no handler.
\<close>

theorem process_jobs_allowlist_rejection_aborts:
  assumes "package_config ev = Some pc"
    and "get_handlers_for_event reg ev pc = Inr handler_classes"
    and "set (iteration handler_classes) = handler_classes"
    and "distinct (iteration handler_classes)"
    and "iteration handler_classes = first # others" and "others \<noteq> []"
    and "\<not> allow ev (get_config_for_handler_kls reg first ev pc)"
  shows "process_jobs reg allow iteration ev b =
           Inr (map (\<lambda>jc. create_from False ''Account is not allowlisted!'' (Some jc) ev)
                  (get_config_for_handler_kls reg first ev pc), b)"
proof -
  have "handler_classes \<noteq> {}" using assms(3,5) by auto
  then show ?thesis using assms(1,2,5,7) by (simp add: process_jobs_def Let_def)
qed

theorem process_jobs_allowlist_rejection_aborts_witness:
  "get_handlers_for_event example_registry pull_request_event example_config
     = Inr {''CoprBuildHandler'', ''TestingFarmHandler''}
   \<and> example_iteration {''CoprBuildHandler'', ''TestingFarmHandler''}
     = [''CoprBuildHandler'', ''TestingFarmHandler'']
   \<and> process_jobs example_registry (\<lambda>ev jcs. False) example_iteration pull_request_event []
     = Inr ([create_from False ''Account is not allowlisted!'' (Some build_job)
               pull_request_event], [])"
proof -
  let ?hs = "{''CoprBuildHandler'', ''TestingFarmHandler''}"
  have a: "package_config pull_request_event = Some example_config"
    by (simp add: pull_request_event_def)
  have b: "get_handlers_for_event example_registry pull_request_event example_config = Inr ?hs"
    by code_simp
  have e: "example_iteration ?hs = ''CoprBuildHandler'' # [''TestingFarmHandler'']"
    by code_simp
  have c: "set (example_iteration ?hs) = ?hs" unfolding e by auto
  have d: "distinct (example_iteration ?hs)" unfolding e by simp
  have h: "get_config_for_handler_kls example_registry ''CoprBuildHandler''
             pull_request_event example_config = [build_job]"
    by code_simp
  have "process_jobs example_registry (\<lambda>ev jcs. False) example_iteration pull_request_event []
     = Inr (map (\<lambda>jc. create_from False ''Account is not allowlisted!'' (Some jc)
                        pull_request_event)
              (get_config_for_handler_kls example_registry ''CoprBuildHandler''
                 pull_request_event example_config), [])"
    using process_jobs_allowlist_rejection_aborts
      [where allow = "\<lambda>ev jcs. False" and reg = example_registry
         and iteration = example_iteration and ev = pull_request_event
         and pc = example_config and handler_classes = ?hs
         and first = "''CoprBuildHandler''" and others = "[''TestingFarmHandler'']"
         and b = "[]"]
      a b c d e
    by simp
  then show ?thesis using b e by (simp add: h)
qed

text \<open>
  Claim C2, as stated, fails: when the package configuration declares the \<open>tests\<close> job
  only, the build handler, visited first, resolves that job as a required one and the test
  handler, visited last, resolves it directly. The returned list then holds a result for a
  job configuration of the handler visited earlier.
\<close>

theorem process_jobs_shared_config_counterexample:
  "example_iteration {''CoprBuildHandler'', ''TestingFarmHandler''}
     = [''CoprBuildHandler'', ''TestingFarmHandler'']
   \<and> get_config_for_handler_kls example_registry ''CoprBuildHandler'' tests_only_event
       tests_only_config = [tests_job]
   \<and> get_config_for_handler_kls example_registry ''TestingFarmHandler'' tests_only_event
       tests_only_config = [tests_job]
   \<and> process_jobs example_registry (\<lambda>ev jcs. True) example_iteration tests_only_event []
     = Inr ([create_from True ''Job created.'' (Some tests_job) tests_only_event],
            [Group [get_signature ''CoprBuildHandler'' tests_only_event (Some tests_job)],
             Group [get_signature ''TestingFarmHandler'' tests_only_event (Some tests_job)]])"
  by code_simp

text \<open>
  Claim C2, amended. The event has a package configuration, the set of matching handlers
  is not empty and the allow-list accepts for each of them. Then \<^verbatim>\<open>process_jobs\<close> returns
  exactly one successful result (\<open>Job created.\<close>) for each job configuration resolved for
  the handler visited last, in order, and nothing else: a job configuration has a result in
  the list exactly when it is resolved for the handler visited last, so one resolved for an
  earlier handler has a result only if the last handler resolves it too. All the same one
  group per handler has been submitted, in the order of the visits, each with one signature
  per job configuration resolved for that handler.
\<close>

theorem process_jobs_reports_last_handler:
  assumes "package_config ev = Some pc"
    and "get_handlers_for_event reg ev pc = Inr handler_classes"
    and "handler_classes \<noteq> {}"
    and "set (iteration handler_classes) = handler_classes"
    and "distinct (iteration handler_classes)"
    and "\<forall>h\<in>handler_classes. allow ev (get_config_for_handler_kls reg h ev pc)"
  shows "process_jobs reg allow iteration ev b =
           Inr (map (\<lambda>jc. create_from True ''Job created.'' (Some jc) ev)
                  (get_config_for_handler_kls reg (last (iteration handler_classes)) ev pc),
                b @ map (\<lambda>h. Group (map (\<lambda>jc. get_signature h ev (Some jc))
                                       (get_config_for_handler_kls reg h ev pc)))
                      (iteration handler_classes))
       \<and> (\<forall>results b' jc.
             process_jobs reg allow iteration ev b = Inr (results, b') \<longrightarrow>
               ((\<exists>r\<in>set results. job_config r = Some jc) \<longleftrightarrow>
                  jc \<in> set (get_config_for_handler_kls reg
                              (last (iteration handler_classes)) ev pc)))"
proof -
  have ne: "iteration handler_classes \<noteq> []" using assms(3,4) by auto
  have "\<forall>h\<in>set (iteration handler_classes). allow ev (get_config_for_handler_kls reg h ev pc)"
    using assms(4,6) by simp
  then have "process_jobs_loop reg allow ev pc (iteration handler_classes) [] b =
     (map (\<lambda>jc. create_from True ''Job created.'' (Some jc) ev)
        (get_config_for_handler_kls reg (last (iteration handler_classes)) ev pc),
      b @ map (\<lambda>h. Group (map (\<lambda>jc. get_signature h ev (Some jc))
                              (get_config_for_handler_kls reg h ev pc)))
            (iteration handler_classes))"
    using ne by (simp add: process_jobs_loop_all_allowed)
  then have eq: "process_jobs reg allow iteration ev b =
           Inr (map (\<lambda>jc. create_from True ''Job created.'' (Some jc) ev)
                  (get_config_for_handler_kls reg (last (iteration handler_classes)) ev pc),
                b @ map (\<lambda>h. Group (map (\<lambda>jc. get_signature h ev (Some jc))
                                       (get_config_for_handler_kls reg h ev pc)))
                      (iteration handler_classes))"
    using assms(1,2,3) by (simp add: process_jobs_def)
  have "\<And>jcs jc. (\<exists>r\<in>set (map (\<lambda>jc. create_from True ''Job created.'' (Some jc) ev) jcs).
                    job_config r = Some jc) \<longleftrightarrow> jc \<in> set jcs"
    by (auto simp: create_from_def)
  with eq show ?thesis by simp
qed

theorem process_jobs_reports_last_handler_witness:
  "process_jobs example_registry (\<lambda>ev jcs. True) example_iteration pull_request_event []
     = Inr ([create_from True ''Job created.'' (Some tests_job) pull_request_event],
            [Group [get_signature ''CoprBuildHandler'' pull_request_event (Some build_job)],
             Group [get_signature ''TestingFarmHandler'' pull_request_event (Some tests_job)]])
   \<and> get_config_for_handler_kls example_registry ''CoprBuildHandler'' pull_request_event
       example_config = [build_job]
   \<and> \<not> (\<exists>r\<in>set [create_from True ''Job created.'' (Some tests_job) pull_request_event].
           job_config r = Some build_job)"
proof -
  let ?hs = "{''CoprBuildHandler'', ''TestingFarmHandler''}"
  have a: "package_config pull_request_event = Some example_config"
    by (simp add: pull_request_event_def)
  have b: "get_handlers_for_event example_registry pull_request_event example_config = Inr ?hs"
    by code_simp
  have e: "example_iteration ?hs = [''CoprBuildHandler'', ''TestingFarmHandler'']"
    by code_simp
  have n: "?hs \<noteq> {}" by simp
  have c: "set (example_iteration ?hs) = ?hs" unfolding e by auto
  have d: "distinct (example_iteration ?hs)" unfolding e by simp
  have h1: "get_config_for_handler_kls example_registry ''CoprBuildHandler''
             pull_request_event example_config = [build_job]"
    by code_simp
  have h2: "get_config_for_handler_kls example_registry ''TestingFarmHandler''
             pull_request_event example_config = [tests_job]"
    by code_simp
  have k: "build_job \<noteq> tests_job" by (simp add: build_job_def tests_job_def)
  have t: "process_jobs example_registry (\<lambda>ev jcs. True) example_iteration pull_request_event []
     = Inr ([create_from True ''Job created.'' (Some tests_job) pull_request_event],
            [Group [get_signature ''CoprBuildHandler'' pull_request_event (Some build_job)],
             Group [get_signature ''TestingFarmHandler'' pull_request_event (Some tests_job)]])
     \<and> (\<forall>results b' jc.
          process_jobs example_registry (\<lambda>ev jcs. True) example_iteration pull_request_event []
            = Inr (results, b') \<longrightarrow>
          ((\<exists>r\<in>set results. job_config r = Some jc) \<longleftrightarrow> jc \<in> set [tests_job]))"
    using process_jobs_reports_last_handler
      [where allow = "\<lambda>ev jcs. True" and reg = example_registry
         and iteration = example_iteration and ev = pull_request_event
         and pc = example_config and handler_classes = ?hs and b = "[]"]
      a b n c d
    by (simp add: e h1 h2)
  then have "(\<exists>r\<in>set [create_from True ''Job created.'' (Some tests_job) pull_request_event].
           job_config r = Some build_job) \<longleftrightarrow> build_job \<in> set [tests_job]"
    by blast
  with t h1 k show ?thesis by simp
qed

text \<open>
  Claim C3, as stated, fails: a release event whose package configuration declares jobs
  for pull requests only matches no job, and \<^verbatim>\<open>process_jobs\<close> returns the empty list, not a
  list of one result.
\<close>

theorem process_jobs_no_matching_jobs_counterexample:
  "process_jobs example_registry (\<lambda>ev jcs. True) example_iteration release_event []
   = Inr ([], [])"
  by code_simp

lemma process_jobs_loop_results_have_config:
  "r \<in> set (fst (process_jobs_loop reg allow ev pc hs job_configs b)) \<Longrightarrow>
     job_config r \<noteq> None"
proof (induction hs arbitrary: job_configs b)
  case Nil
  then show ?case by (auto simp: create_from_def)
next
  case (Cons h hs)
  then show ?case by (auto simp: Let_def create_from_def split: if_splits)
qed

text \<open>
  Claim C3, amended. For every event that has a package configuration none of whose jobs
  has the event's trigger, \<^verbatim>\<open>process_jobs\<close> returns the empty list and submits nothing. The
  single successful result without a job configuration is what it returns for an event
  with no package configuration, and only for such an event: whenever the returned list
  holds a result without a job configuration, the event has no package configuration.
\<close>

theorem process_jobs_no_matching_jobs_empty:
  "(\<forall>pc. package_config ev = Some pc
          \<and> (\<forall>job\<in>set (jobs pc). trigger job \<noteq> job_config_trigger_type ev)
          \<longrightarrow> process_jobs reg allow iteration ev b = Inr ([], b))
   \<and> (package_config ev = None
        \<longrightarrow> process_jobs reg allow iteration ev b
            = Inr ([create_from True ''No packit config found in the repository.'' None ev],
                   b))
   \<and> (\<forall>results b' r.
         process_jobs reg allow iteration ev b = Inr (results, b')
         \<and> r \<in> set results \<and> job_config r = None
         \<longrightarrow> package_config ev = None)"
proof (intro conjI allI impI)
  fix pc
  assume h: "package_config ev = Some pc
          \<and> (\<forall>job\<in>set (jobs pc). trigger job \<noteq> job_config_trigger_type ev)"
  then have j: "jobs_matching_trigger_unique (job_config_trigger_type ev) (jobs pc) [] = []"
    by (simp add: jobs_matching_trigger_unique_none)
  obtain hs where hs: "get_handlers_for_event reg ev pc = Inr hs"
    using get_handlers_for_event_returns by blast
  then have "hs = {}"
    using get_handlers_for_comment_returns [of reg "comment ev"]
    by (auto simp: get_handlers_for_event_def Let_def j split: if_splits)
  then show "process_jobs reg allow iteration ev b = Inr ([], b)"
    using h hs by (simp add: process_jobs_def)
next
  assume "package_config ev = None"
  then show "process_jobs reg allow iteration ev b
            = Inr ([create_from True ''No packit config found in the repository.'' None ev],
                   b)"
    by (simp add: process_jobs_def)
next
  fix results b' r
  assume h: "process_jobs reg allow iteration ev b = Inr (results, b')
         \<and> r \<in> set results \<and> job_config r = None"
  show "package_config ev = None"
  proof (rule ccontr)
    assume "package_config ev \<noteq> None"
    then obtain pc where pc: "package_config ev = Some pc" by auto
    obtain hs where hs: "get_handlers_for_event reg ev pc = Inr hs"
      using get_handlers_for_event_returns by blast
    show False
    proof (cases "hs = {}")
      case True
      with h pc hs show False by (auto simp: process_jobs_def)
    next
      case False
      with h pc hs
      have "r \<in> set (fst (process_jobs_loop reg allow ev pc (iteration hs) [] b))"
        by (auto simp: process_jobs_def)
      from process_jobs_loop_results_have_config [OF this] h show False by simp
    qed
  qed
qed

theorem process_jobs_no_matching_jobs_empty_witness:
  "package_config release_event = Some example_config
   \<and> process_jobs example_registry (\<lambda>ev jcs. False) example_iteration release_event []
     = Inr ([], [])
   \<and> package_config installation_event = None
   \<and> process_jobs example_registry (\<lambda>ev jcs. False) example_iteration installation_event []
     = Inr ([create_from True ''No packit config found in the repository.'' None
               installation_event], [])
   \<and> job_config (create_from True ''No packit config found in the repository.'' None
                   installation_event) = None"
proof -
  have a: "package_config release_event = Some example_config"
    by (simp add: release_event_def)
  have b: "\<forall>job\<in>set (jobs example_config). trigger job \<noteq> job_config_trigger_type release_event"
    by (simp add: example_config_def build_job_def tests_job_def release_event_def)
  have n: "package_config installation_event = None"
    by (simp add: installation_event_def)
  have c: "job_config (create_from True ''No packit config found in the repository.'' None
                   installation_event) = None"
    by (simp add: create_from_def)
  have 1: "process_jobs example_registry (\<lambda>ev jcs. False) example_iteration release_event []
     = Inr ([], [])"
    using process_jobs_no_matching_jobs_empty
      [where ev = release_event and reg = example_registry and allow = "\<lambda>ev jcs. False"
         and iteration = example_iteration and b = "[]", THEN conjunct1] a b
    by blast
  have 2: "process_jobs example_registry (\<lambda>ev jcs. False) example_iteration
             installation_event []
     = Inr ([create_from True ''No packit config found in the repository.'' None
               installation_event], [])"
    using process_jobs_no_matching_jobs_empty
      [where ev = installation_event and reg = example_registry
         and allow = "\<lambda>ev jcs. False" and iteration = example_iteration and b = "[]",
       THEN conjunct2, THEN conjunct1] n
    by blast
  show ?thesis using a n c 1 2 by simp
qed

text \<open>
  Claim C4, as stated, fails: the release event passes every gate of \<^verbatim>\<open>process_message\<close>, is
  neither an installation nor a label event, \<^verbatim>\<open>process_jobs\<close> returns the empty list for it,
  and \<^verbatim>\<open>process_message\<close> returns that empty list: the default result is made only when
  \<^verbatim>\<open>processing_results is None\<close>.
\<close>

theorem process_message_empty_results_counterexample:
  "process_jobs example_registry (\<lambda>ev jcs. True) example_iteration release_event []
     = Inr ([], [])
   \<and> process_message (example_environment (\<lambda>ev jcs. True)) release_event None None []
     = Inr ([], [])"
  by code_simp

text \<open>
  Claim C4, amended. For every message whose event passes the topic filter, the pre-check
  and the privacy gate: if the event is neither an installation nor a label-added event,
  \<^verbatim>\<open>process_message\<close> returns just what \<^verbatim>\<open>process_jobs\<close> returns for it, the empty list
  included; the single successful result \<open>Job created.\<close> without a job configuration is
  what it returns for an installation event and for a label-added event, after submitting
  that event's one signature.
\<close>

theorem process_message_passes_results_on:
  assumes "accepted_event env raw topic source ev"
  shows "(event_class ev \<noteq> InstallationEvent \<and> event_class ev \<noteq> PullRequestLabelPagureEvent
            \<longrightarrow> process_message env raw topic source b
                = process_jobs (env_registry env) (env_allowlist env) (env_iteration env) ev b)
       \<and> (event_class ev = InstallationEvent
            \<longrightarrow> process_message env raw topic source b
                = Inr ([create_from True ''Job created.'' None ev],
                       b @ [Single (get_signature ''GithubAppInstallationHandler'' ev None)]))
       \<and> (event_class ev = PullRequestLabelPagureEvent
            \<longrightarrow> process_message env raw topic source b
                = Inr ([create_from True ''Job created.'' None ev],
                       b @ [Single (get_signature ''PagurePullRequestLabelHandler'' ev None)]))"
proof -
  have t: "\<not> (case topic of None \<Rightarrow> False
              | Some t \<Rightarrow> t \<noteq> [] \<and> Some t \<notin> set (handler_topics env))"
    using assms by (auto simp: accepted_event_def split: option.splits)
  have p: "(if source = Some ''centosmsg'' then centos_parse_event env raw
            else parse_event env raw) = Some ev"
    and c: "pre_check ev" and v: "\<not> private_and_not_enabled env ev"
    using assms by (simp_all add: accepted_event_def)
  show ?thesis
    unfolding process_message_def
    by (simp only: t p c v if_False if_True not_True_eq_False not_False_eq_True option.case)
       (auto split: sum.splits prod.splits)
qed

theorem process_message_passes_results_on_witness:
  "accepted_event (example_environment (\<lambda>ev jcs. True)) pull_request_event None None
     pull_request_event
   \<and> process_message (example_environment (\<lambda>ev jcs. True)) pull_request_event None None []
     = process_jobs example_registry (\<lambda>ev jcs. True) example_iteration pull_request_event []
   \<and> process_message (example_environment (\<lambda>ev jcs. True)) installation_event None None []
     = Inr ([create_from True ''Job created.'' None installation_event],
            [Single (get_signature ''GithubAppInstallationHandler'' installation_event None)])"
proof -
  let ?env = "example_environment (\<lambda>ev jcs. True)"
  have a: "accepted_event ?env pull_request_event None None pull_request_event"
    by (simp add: accepted_event_def example_environment_def pull_request_event_def
        private_and_not_enabled_def)
  have a': "accepted_event ?env installation_event None None installation_event"
    by (simp add: accepted_event_def example_environment_def installation_event_def
        private_and_not_enabled_def)
  have k: "event_class pull_request_event \<noteq> InstallationEvent"
    "event_class pull_request_event \<noteq> PullRequestLabelPagureEvent"
    "event_class installation_event = InstallationEvent"
    by (simp_all add: pull_request_event_def installation_event_def)
  have e: "env_registry ?env = example_registry" "env_allowlist ?env = (\<lambda>ev jcs. True)"
    "env_iteration ?env = example_iteration"
    by (simp_all add: example_environment_def)
  show ?thesis
    using a k e process_message_passes_results_on [OF a, of "[]"]
      process_message_passes_results_on [OF a', of "[]"]
    by simp
qed

section \<open>Status reporter\<close>

lemma called_keeps:
  "reporter (called c s) = reporter s" "calls (called c s) = calls s @ [c]"
  by (simp_all add: called_def)

lemma project_with_commit_keeps:
  "project_with_commit f s = (r, s') \<Longrightarrow>
     commit_sha (reporter s') = commit_sha (reporter s) \<and> pr_id (reporter s') = pr_id (reporter s)
     \<and> comment_posted s' = comment_posted s \<and> flag_written s' = flag_written s"
  by (auto simp: project_with_commit_def called_def comment_posted_def flag_written_def
      split: option.splits sum.splits if_splits)

lemma project_with_commit_returns:
  "get_pr_outcome f = Inr pr \<Longrightarrow> \<exists>p. fst (project_with_commit f s) = Inr p"
  by (auto simp: project_with_commit_def split: option.splits)

lemma try_set_commit_status_keeps:
  assumes "try_set_commit_status f st url description check_name s = (r, s')"
  shows "commit_sha (reporter s') = commit_sha (reporter s)
     \<and> pr_id (reporter s') = pr_id (reporter s)
     \<and> comment_posted s' = comment_posted s \<and> flag_written s' = flag_written s"
proof (cases "project_with_commit f s")
  case (Pair a s1)
  note k = project_with_commit_keeps [OF Pair]
  show ?thesis
  proof (cases a)
    case (Inl e)
    with Pair assms k show ?thesis by (simp add: try_set_commit_status_def)
  next
    case (Inr p)
    with Pair assms
    have "s' = called (SetCommitStatus p (commit_sha (reporter s1)) st url description
                         check_name) s1"
      by (simp add: try_set_commit_status_def)
    with k show ?thesis by (simp add: called_def comment_posted_def flag_written_def)
  qed
qed

lemma try_set_commit_status_returns:
  "get_pr_outcome f = Inr pr \<Longrightarrow>
     fst (try_set_commit_status f st url description check_name s) = set_commit_status_outcome f"
  using project_with_commit_returns [of f pr s]
  by (cases "project_with_commit f s") (auto simp: try_set_commit_status_def)

text \<open>The fallback comment carries the name, the state, the url and the description.\<close>

lemma add_commit_comment_with_status_result:
  "add_commit_comment_with_status f st description check_name url s =
     (commit_comment_outcome f,
      called (CommitComment (commit_sha (reporter s))
                (fallback_body check_name st url description)) s)"
  by (simp add: add_commit_comment_with_status_def fallback_body_def)

lemma except_clauses_keeps:
  assumes "except_clauses f e st description check_name url s = (r, s')"
  shows "commit_sha (reporter s') = commit_sha (reporter s)
     \<and> pr_id (reporter s') = pr_id (reporter s)
     \<and> flag_written s' = flag_written s"
  using assms
  by (cases e)
     (auto simp: except_clauses_def add_commit_comment_with_status_result called_keeps
        flag_written_def split: if_splits option.splits)

lemma try_statement_keeps:
  assumes "try_statement f st description check_name url s = (r, s')"
  shows "commit_sha (reporter s') = commit_sha (reporter s)
     \<and> pr_id (reporter s') = pr_id (reporter s)
     \<and> flag_written s' = flag_written s"
proof (cases "try_set_commit_status f st url description check_name s")
  case (Pair a s1)
  note k = try_set_commit_status_keeps [OF Pair]
  show ?thesis
  proof (cases a)
    case None
    with Pair assms k show ?thesis by (simp add: try_statement_def)
  next
    case (Some e)
    with Pair assms have "except_clauses f e st description check_name url s1 = (r, s')"
      by (simp add: try_statement_def)
    from except_clauses_keeps [OF this] k show ?thesis by simp
  qed
qed

lemma set_pull_request_status_flag:
  "flag_written (snd (set_pull_request_status f check_name description url st s)) \<longleftrightarrow>
     flag_written s \<or>
     (\<exists>n pr. pr_id (reporter s) = Some n \<and> get_pr_outcome f = Inr pr \<and> has_set_flag pr
        \<and> head_commit pr = commit_sha (reporter s))"
  by (auto simp: set_pull_request_status_def called_keeps flag_written_def
      split: option.splits sum.splits)

lemma set_pull_request_status_comment:
  "comment_posted (snd (set_pull_request_status f check_name description url st s))
     = comment_posted s"
  by (auto simp: set_pull_request_status_def called_keeps comment_posted_def
      split: option.splits sum.splits)

lemma set_pull_request_status_returns:
  "get_pr_outcome f = Inr pr \<Longrightarrow> set_flag_outcome f = None \<Longrightarrow>
     fst (set_pull_request_status f check_name description url st s) = None"
  by (auto simp: set_pull_request_status_def split: option.splits)

lemma set_pull_request_status_keeps_calls:
  "c \<in> set (calls s) \<Longrightarrow>
     c \<in> set (calls (snd (set_pull_request_status f check_name description url st s)))"
  by (auto simp: set_pull_request_status_def called_keeps split: option.splits sum.splits)

text \<open>
  The \<^verbatim>\<open>try\<close> statement when the status post fails with a GitLab create error and the
  fallback comment, if made, goes through.
\<close>

lemma try_statement_gitlab:
  assumes "set_commit_status_outcome f = Some (GitlabCreateError code)"
    and "get_pr_outcome f = Inr pr"
    and "commit_comment_outcome f = None"
  obtains s1 where
    "comment_posted s1 = comment_posted s"
    "try_statement f st description check_name url s =
       (if code = 400 then (None, s1)
        else (if code = 403 \<or> code = 404 then None else Some (GitlabCreateError code),
              called (CommitComment (commit_sha (reporter s))
                        (fallback_body check_name st url description)) s1))"
proof -
  obtain r s1 where p: "try_set_commit_status f st url description check_name s = (r, s1)"
    by (cases "try_set_commit_status f st url description check_name s")
  have r: "r = Some (GitlabCreateError code)"
    using try_set_commit_status_returns [OF assms(2), of st url description check_name s]
      p assms(1)
    by simp
  note k = try_set_commit_status_keeps [OF p]
  have "try_statement f st description check_name url s =
       (if code = 400 then (None, s1)
        else (if code = 403 \<or> code = 404 then None else Some (GitlabCreateError code),
              called (CommitComment (commit_sha (reporter s))
                        (fallback_body check_name st url description)) s1))"
    using p r k assms(3)
    by (simp add: try_statement_def except_clauses_def add_commit_comment_with_status_result)
  with k show ?thesis using that by blast
qed

text \<open>
  Claim C7. The status post fails with a GitLab create error of code \<open>code\<close>; the other
  calls to the forge (fetching the pull request, posting a commit comment, setting a flag)
  go through, and no comment has been posted before. With code 400 \<^verbatim>\<open>set_status\<close> returns
  and posts no comment. With code 403 or 404 it returns and has posted the fallback commit
  comment, whose text holds the name, the state, the url and the description. With any
  other code it raises the same error again (after posting the fallback comment).
\<close>

theorem set_status_gitlab_create_error:
  assumes "set_commit_status_outcome f = Some (GitlabCreateError code)"
    and "get_pr_outcome f = Inr pr"
    and "commit_comment_outcome f = None"
    and "set_flag_outcome f = None"
    and "\<not> comment_posted s"
  shows "(code = 400 \<longrightarrow>
            fst (set_status f st description check_name url s) = None
            \<and> \<not> comment_posted (snd (set_status f st description check_name url s)))
       \<and> (code = 403 \<or> code = 404 \<longrightarrow>
            fst (set_status f st description check_name url s) = None
            \<and> CommitComment (commit_sha (reporter s))
                 (fallback_body check_name st (effective_url (reporter s) url) description)
               \<in> set (calls (snd (set_status f st description check_name url s))))
       \<and> (code \<noteq> 400 \<and> code \<noteq> 403 \<and> code \<noteq> 404 \<longrightarrow>
            fst (set_status f st description check_name url s) = Some (GitlabCreateError code)
            \<and> CommitComment (commit_sha (reporter s))
                 (fallback_body check_name st (effective_url (reporter s) url) description)
               \<in> set (calls (snd (set_status f st description check_name url s))))"
proof -
  let ?u = "effective_url (reporter s) url"
  let ?c = "CommitComment (commit_sha (reporter s)) (fallback_body check_name st ?u description)"
  obtain s1 where
    s1: "comment_posted s1 = comment_posted s"
    and t: "try_statement f st description check_name ?u s =
       (if code = 400 then (None, s1)
        else (if code = 403 \<or> code = 404 then None else Some (GitlabCreateError code),
              called ?c s1))"
    using try_statement_gitlab [OF assms(1-3), of s st description check_name ?u] by metis
  show ?thesis
  proof (intro conjI impI)
    assume "code = 400"
    then show "fst (set_status f st description check_name url s) = None"
      using t by (simp add: set_status_def Let_def set_pull_request_status_returns [OF assms(2,4)])
  next
    assume "code = 400"
    then show "\<not> comment_posted (snd (set_status f st description check_name url s))"
      using t s1 assms(5) by (simp add: set_status_def Let_def set_pull_request_status_comment)
  next
    assume "code = 403 \<or> code = 404"
    then show "fst (set_status f st description check_name url s) = None"
      using t
      by (auto simp: set_status_def Let_def set_pull_request_status_returns [OF assms(2,4)])
  next
    assume "code = 403 \<or> code = 404"
    then show "?c \<in> set (calls (snd (set_status f st description check_name url s)))"
      using t
      by (auto simp: set_status_def Let_def called_keeps intro!: set_pull_request_status_keeps_calls)
  next
    assume "code \<noteq> 400 \<and> code \<noteq> 403 \<and> code \<noteq> 404"
    then show "fst (set_status f st description check_name url s) = Some (GitlabCreateError code)"
      using t by (simp add: set_status_def Let_def)
  next
    assume "code \<noteq> 400 \<and> code \<noteq> 403 \<and> code \<noteq> 404"
    then show "?c \<in> set (calls (snd (set_status f st description check_name url s)))"
      using t by (simp add: set_status_def Let_def called_keeps)
  qed
qed

theorem set_status_gitlab_create_error_witness:
  "fst (set_status (example_forge (Some (GitlabCreateError 400))) (CommitStatus ''success'')
          ''built'' ''rpm-build'' [] example_state) = None
   \<and> \<not> comment_posted
         (snd (set_status (example_forge (Some (GitlabCreateError 400)))
                 (CommitStatus ''success'') ''built'' ''rpm-build'' [] example_state))
   \<and> fst (set_status (example_forge (Some (GitlabCreateError 403))) (CommitStatus ''success'')
          ''built'' ''rpm-build'' [] example_state) = None
   \<and> CommitComment ''abc''
        (fallback_body ''rpm-build'' (CommitStatus ''success'') [] ''built'')
      \<in> set (calls (snd (set_status (example_forge (Some (GitlabCreateError 403)))
                           (CommitStatus ''success'') ''built'' ''rpm-build'' []
                           example_state)))
   \<and> fst (set_status (example_forge (Some (GitlabCreateError 500))) (CommitStatus ''success'')
          ''built'' ''rpm-build'' [] example_state) = Some (GitlabCreateError 500)"
proof -
  have o: "\<And>c. set_commit_status_outcome (example_forge (Some (GitlabCreateError c)))
             = Some (GitlabCreateError c)"
    by (simp add: example_forge_def)
  have p: "\<And>x. get_pr_outcome (example_forge x)
             = Inr \<lparr>has_set_flag = True, head_commit = ''abc''\<rparr>"
    by (simp add: example_forge_def)
  have q: "\<And>x. commit_comment_outcome (example_forge x) = None"
    "\<And>x. set_flag_outcome (example_forge x) = None"
    by (simp_all add: example_forge_def)
  have n: "\<not> comment_posted example_state"
    by (simp add: comment_posted_def example_state_def)
  have u: "effective_url (reporter example_state) [] = []"
    "commit_sha (reporter example_state) = ''abc''"
    by (simp_all add: effective_url_def example_state_def)
  show ?thesis
    using
      set_status_gitlab_create_error [OF o p q n, of 400 "CommitStatus ''success''" "''built''"
        "''rpm-build''" "[]"]
      set_status_gitlab_create_error [OF o p q n, of 403 "CommitStatus ''success''" "''built''"
        "''rpm-build''" "[]"]
      set_status_gitlab_create_error [OF o p q n, of 500 "CommitStatus ''success''" "''built''"
        "''rpm-build''" "[]"]
    by (simp add: u)
qed

text \<open>
  Claim C8, as stated, fails: when the status post fails with a create error of code 500,
  \<^verbatim>\<open>set_status\<close> raises after the fallback comment and the statement that mirrors the status
  onto the pull request is never reached. The pull request is not fetched again and no flag
  is written, although a pull-request id is present, the pull request has \<^verbatim>\<open>set_flag\<close> and
  its head is the reported commit.
\<close>

theorem set_status_reraise_skips_mirror_counterexample:
  "set_status (example_forge (Some (GitlabCreateError 500))) (CommitStatus ''success'')
     ''built'' ''rpm-build'' ''http://logs'' example_state =
   (Some (GitlabCreateError 500),
    \<lparr>reporter = \<lparr>project_class = GitlabProject, commit_sha = ''abc'', pr_id = Some 7,
                 cached_project_with_commit = Some (SourceProjectOfPr 7)\<rparr>,
     calls = [GetPr 7,
              SetCommitStatus (SourceProjectOfPr 7) ''abc'' (CommitStatus ''success'')
                ''http://logs'' ''built'' ''rpm-build'',
              CommitComment ''abc''
                (fallback_body ''rpm-build'' (CommitStatus ''success'') ''http://logs''
                   ''built'')]\<rparr>)"
  by code_simp

text \<open>
  Claim C8, amended. In a call to \<^verbatim>\<open>set_status\<close> whose \<^verbatim>\<open>try\<close> statement ends without an
  exception (the status post succeeded, failed with code 400, or was replaced by a fallback
  comment that went through), the mirror \<^verbatim>\<open>__set_pull_request_status\<close> runs afterwards on
  the state the statement left, and its outcome is the outcome of \<^verbatim>\<open>set_status\<close>; when the
  statement raises (a create error with a code outside 400, 403 and 404, any exception that
  is not caught, or a failing fallback comment), \<^verbatim>\<open>set_status\<close> raises that exception and
  the mirror does not run. Hence \<^verbatim>\<open>set_status\<close> writes the flag exactly when the \<^verbatim>\<open>try\<close>
  statement ends without an exception, a pull-request id is present, the pull request is
  fetched and has \<^verbatim>\<open>set_flag\<close>, and its head commit is the commit reported.
\<close>

theorem set_status_mirror_after_surviving_try:
  assumes "\<not> flag_written s"
  shows "(case try_statement f st description check_name (effective_url (reporter s) url) s of
            (None, s2) \<Rightarrow>
              set_status f st description check_name url s =
                set_pull_request_status f check_name description
                  (effective_url (reporter s) url) st s2
          | (Some e, s2) \<Rightarrow>
              set_status f st description check_name url s = (Some e, s2))
       \<and> (flag_written (snd (set_status f st description check_name url s)) \<longleftrightarrow>
            fst (try_statement f st description check_name (effective_url (reporter s) url) s)
              = None
            \<and> (\<exists>n pr. pr_id (reporter s) = Some n \<and> get_pr_outcome f = Inr pr
                 \<and> has_set_flag pr \<and> head_commit pr = commit_sha (reporter s)))"
proof (cases "try_statement f st description check_name (effective_url (reporter s) url) s")
  case (Pair r s2)
  note k = try_statement_keeps [OF Pair]
  show ?thesis
  proof (cases r)
    case None
    then have eq: "set_status f st description check_name url s =
        set_pull_request_status f check_name description (effective_url (reporter s) url) st s2"
      using Pair by (simp add: set_status_def)
    show ?thesis using Pair None k assms
      by (simp add: eq set_pull_request_status_flag)
  next
    case (Some e)
    then have eq: "set_status f st description check_name url s = (Some e, s2)"
      using Pair by (simp add: set_status_def)
    show ?thesis using Pair Some k assms by (simp add: eq)
  qed
qed

theorem set_status_mirror_after_surviving_try_witness:
  "\<not> flag_written example_state
   \<and> fst (try_statement (example_forge (Some (GitlabCreateError 403)))
           (CommitStatus ''success'') ''built'' ''rpm-build'' ''http://logs'' example_state)
       = None
   \<and> flag_written
       (snd (set_status (example_forge (Some (GitlabCreateError 403)))
               (CommitStatus ''success'') ''built'' ''rpm-build'' ''http://logs''
               example_state))
   \<and> fst (try_statement (example_forge (Some (GitlabCreateError 500)))
           (CommitStatus ''success'') ''built'' ''rpm-build'' ''http://logs'' example_state)
       = Some (GitlabCreateError 500)
   \<and> \<not> flag_written
       (snd (set_status (example_forge (Some (GitlabCreateError 500)))
               (CommitStatus ''success'') ''built'' ''rpm-build'' ''http://logs''
               example_state))"
proof -
  have n: "\<not> flag_written example_state"
    by (simp add: flag_written_def example_state_def)
  have u: "effective_url (reporter example_state) ''http://logs'' = ''http://logs''"
    by (simp add: effective_url_def)
  have t3: "fst (try_statement (example_forge (Some (GitlabCreateError 403)))
           (CommitStatus ''success'') ''built'' ''rpm-build'' ''http://logs'' example_state)
       = None"
    by code_simp
  have t5: "fst (try_statement (example_forge (Some (GitlabCreateError 500)))
           (CommitStatus ''success'') ''built'' ''rpm-build'' ''http://logs'' example_state)
       = Some (GitlabCreateError 500)"
    by code_simp
  have p: "\<And>x. get_pr_outcome (example_forge x)
             = Inr \<lparr>has_set_flag = True, head_commit = ''abc''\<rparr>"
    by (simp add: example_forge_def)
  have r: "pr_id (reporter example_state) = Some 7" "commit_sha (reporter example_state) = ''abc''"
    by (simp_all add: example_state_def)
  show ?thesis
    using n t3 t5
      set_status_mirror_after_surviving_try [OF n,
        of "example_forge (Some (GitlabCreateError 403))" "CommitStatus ''success''" "''built''"
          "''rpm-build''" "''http://logs''", THEN conjunct2]
      set_status_mirror_after_surviving_try [OF n,
        of "example_forge (Some (GitlabCreateError 500))" "CommitStatus ''success''" "''built''"
          "''rpm-build''" "''http://logs''", THEN conjunct2]
    by (simp add: u p r)
qed

end
